theory Spec2Isabelle
  imports Main "HOL-Library.AList"
begin

section \<open>SignalManager (metaflow/runner/signal\_manager.py)\<close>

subsection \<open>Data model\<close>

text \<open>
  A handler is a Python callable; the handler sets hash and compare it by identity, so a
  handler is represented by its identity. A signal number is a Python int. The second
  argument of a handler is the interrupted frame, or \<open>None\<close> when the event loop
  delivers the signal (line 36).
\<close>

type_synonym handler = nat
type_synonym loop = nat
type_synonym frame = "nat option"

text \<open>
  The exceptions of the module: \<open>KeyError\<close> of a dict lookup, a dict deletion or
  \<open>set.remove\<close>, \<open>RuntimeError\<close> of \<open>asyncio.get_running_loop\<close>, and whatever a
  handler raises (\<open>Raised\<close>, with a payload).
\<close>

datatype exn = KeyError | RuntimeError | Raised nat

text \<open>
  What \<open>signal.signal\<close> installs and returns: the default action, ignore, a callable that
  does not belong to a manager, or the bound method \<open>_handle_signal\<close> of the manager with
  the given identity. A handler that was not installed from Python (for which
  \<open>signal.signal\<close> returns \<open>None\<close>) is not represented. \<open>signal.signal\<close> and the two
  event-loop methods are library code; they are taken not to fail.
\<close>

datatype disposition = SIG_DFL | SIG_IGN | Foreign nat | Trampoline nat

text \<open>
  Lines 10 and 11 assign \<open>signal_map\<close> and \<open>replaced_signals\<close> in the class body, and no
  method ever assigns \<open>self.signal_map\<close> or \<open>self.replaced_signals\<close>: every read of them
  through \<open>self\<close> finds the one dict object of the class. The two dicts are therefore
  part of the state outside any instance, next to the signal table of the process and
  the signal handlers of each event loop. A dict is an association list in insertion
  order (the order in which a \<open>for\<close> loop visits its keys): a store to a new key appends,
  a store to an old key replaces in place (\<open>AList.update\<close>), \<open>del\<close> removes
  (\<open>AList.delete\<close>), a lookup is \<open>map_of\<close>.

  An event loop keeps one callback per signal; the callback of line 36 is the closure
  over \<open>self\<close> and \<open>sig\<close>, represented by the pair of the manager's identity and \<open>sig\<close>.
\<close>

record world =
  signal_map :: "(int \<times> handler set) list"
  replaced_signals :: "(int \<times> disposition) list"
  os_handlers :: "int \<Rightarrow> disposition"
  loop_handlers :: "loop \<Rightarrow> int \<Rightarrow> (nat \<times> int) option"

text \<open>The only instance attribute is \<open>event_loop\<close>; \<open>ident\<close> is the object's identity.\<close>

record manager =
  ident :: nat
  event_loop :: "loop option"

text \<open>A call of a handler, as seen from outside: the handler and its two arguments.\<close>

type_synonym call = "handler \<times> int \<times> frame"

text \<open>
  What a handler does when it is called with a signal number and a frame: it returns
  (\<open>None\<close>) or raises. Handlers that call back into the manager are outside the model.
\<close>

type_synonym behaviour = "handler \<Rightarrow> int \<Rightarrow> frame \<Rightarrow> exn option"

subsection \<open>Library calls\<close>

text \<open>\<open>signal.signal(sig, d)\<close>: install \<open>d\<close> for \<open>sig\<close>, return what was installed.\<close>

definition signal_signal :: "int \<Rightarrow> disposition \<Rightarrow> world \<Rightarrow> disposition \<times> world" where
  "signal_signal sig d w = (os_handlers w sig, w\<lparr>os_handlers := (os_handlers w)(sig := d)\<rparr>)"

text \<open>
  \<open>asyncio.get_running_loop()\<close>: the loop running on the calling thread, or
  \<open>RuntimeError\<close> when there is none.
\<close>

definition get_running_loop :: "loop option \<Rightarrow> exn + loop" where
  "get_running_loop running = (case running of None \<Rightarrow> Inl RuntimeError | Some l \<Rightarrow> Inr l)"

text \<open>\<open>set.remove(x)\<close> raises \<open>KeyError\<close> when \<open>x\<close> is not a member.\<close>

definition set_remove :: "'a \<Rightarrow> 'a set \<Rightarrow> exn + 'a set" where
  "set_remove x A = (if x \<in> A then Inr (A - {x}) else Inl KeyError)"

text \<open>Sequencing of two steps of which the first may raise.\<close>

definition bind_exn :: "exn + 'a \<Rightarrow> ('a \<Rightarrow> exn + 'b) \<Rightarrow> exn + 'b" where
  "bind_exn r f = (case r of Inl e \<Rightarrow> Inl e | Inr x \<Rightarrow> f x)"

subsection \<open>The methods\<close>

text \<open>
  \<open>__init__\<close> (lines 13 to 17), for the new object's identity \<open>i\<close>, the argument
  \<open>event_loop\<close> and the loop running on the calling thread, if any. It stores
  \<open>event_loop or asyncio.get_running_loop()\<close>, and \<open>None\<close> when that raises
  \<open>RuntimeError\<close>; any other exception would leave the method. It touches neither dict.
\<close>

definition init ::
  "nat \<Rightarrow> loop option \<Rightarrow> loop option \<Rightarrow> world \<Rightarrow> exn + manager \<times> world" where
  "init i arg running w =
     (case (case arg of Some l \<Rightarrow> Inr l | None \<Rightarrow> get_running_loop running) of
        Inr l \<Rightarrow> Inr (\<lparr>ident = i, event_loop = Some l\<rparr>, w)
      | Inl RuntimeError \<Rightarrow> Inr (\<lparr>ident = i, event_loop = None\<rparr>, w)
      | Inl e \<Rightarrow> Inl e)"

text \<open>
  \<open>_handle_signal\<close> (lines 26 to 28). The lookup \<open>self.signal_map[signum]\<close> raises
  \<open>KeyError\<close> for a missing key. The loop calls the members of the set one after the
  other and stops at the first that raises; \<open>call_all\<close> returns the calls made and the
  exception, if any. Python does not fix the order in which a set is iterated: \<open>iter\<close>
  gives, for a set, the order in which its iterator yields the members. \<open>self\<close> is used
  for \<open>self.signal_map\<close> only, so the manager is no argument.
\<close>

fun call_all :: "behaviour \<Rightarrow> int \<Rightarrow> frame \<Rightarrow> handler list \<Rightarrow> call list \<times> exn option" where
  "call_all beh signum fr [] = ([], None)"
| "call_all beh signum fr (h # hs) =
     (case beh h signum fr of
        Some e \<Rightarrow> ([(h, signum, fr)], Some e)
      | None \<Rightarrow> (case call_all beh signum fr hs of (cs, r) \<Rightarrow> ((h, signum, fr) # cs, r)))"

definition priv_handle_signal ::
  "(handler set \<Rightarrow> handler list) \<Rightarrow> behaviour \<Rightarrow> world \<Rightarrow> int \<Rightarrow> frame \<Rightarrow> call list \<times> exn option" where
  "priv_handle_signal iter beh w signum fr =
     (case map_of (signal_map w) signum of
        None \<Rightarrow> ([], Some KeyError)
      | Some H \<Rightarrow> call_all beh signum fr (iter H))"

text \<open>\<open>_add_signal_handler\<close> (lines 30 to 37).\<close>

definition priv_add_signal_handler :: "manager \<Rightarrow> int \<Rightarrow> world \<Rightarrow> world" where
  "priv_add_signal_handler m sig w =
     (case event_loop m of
        None \<Rightarrow>
          (case signal_signal sig (Trampoline (ident m)) w of
             (replaced, w') \<Rightarrow>
               w'\<lparr>replaced_signals := AList.update sig replaced (replaced_signals w')\<rparr>)
      | Some l \<Rightarrow>
          w\<lparr>loop_handlers := (loop_handlers w)(l := (loop_handlers w l)(sig \<mapsto> (ident m, sig)))\<rparr>)"

text \<open>
  \<open>_remove_signal_handler\<close> (lines 39 to 44). In direct mode the lookup
  \<open>self.replaced_signals[sig]\<close> raises \<open>KeyError\<close> for a missing key.
\<close>

definition priv_remove_signal_handler :: "manager \<Rightarrow> int \<Rightarrow> world \<Rightarrow> exn + world" where
  "priv_remove_signal_handler m sig w =
     (case event_loop m of
        None \<Rightarrow>
          (case map_of (replaced_signals w) sig of
             None \<Rightarrow> Inl KeyError
           | Some d \<Rightarrow>
               (case signal_signal sig d w of
                  (old, w') \<Rightarrow>
                    Inr (w'\<lparr>replaced_signals := AList.delete sig (replaced_signals w')\<rparr>)))
      | Some l \<Rightarrow>
          Inr (w\<lparr>loop_handlers := (loop_handlers w)(l := (loop_handlers w l)(sig := None))\<rparr>))"

text \<open>\<open>add_signal_handler\<close> (lines 46 to 61).\<close>

definition add_signal_handler :: "manager \<Rightarrow> int \<Rightarrow> handler \<Rightarrow> world \<Rightarrow> exn + world" where
  "add_signal_handler m sig h w =
     (let w1 = (if map_of (signal_map w) sig = None
                then priv_add_signal_handler m sig
                       (w\<lparr>signal_map := AList.update sig {} (signal_map w)\<rparr>)
                else w)
      in case map_of (signal_map w1) sig of
           None \<Rightarrow> Inl KeyError
         | Some H \<Rightarrow> Inr (w1\<lparr>signal_map := AList.update sig (insert h H) (signal_map w1)\<rparr>))"

text \<open>
  \<open>remove_signal_handler\<close> (lines 63 to 80): the \<open>except KeyError: pass\<close> catches the
  \<open>KeyError\<close> of \<open>set.remove\<close> and nothing else.
\<close>

definition remove_signal_handler :: "int \<Rightarrow> handler \<Rightarrow> world \<Rightarrow> exn + world" where
  "remove_signal_handler sig h w =
     (case map_of (signal_map w) sig of
        None \<Rightarrow> Inr w
      | Some H \<Rightarrow>
          (case set_remove h H of
             Inr H' \<Rightarrow> Inr (w\<lparr>signal_map := AList.update sig H' (signal_map w)\<rparr>)
           | Inl KeyError \<Rightarrow> Inr w
           | Inl e \<Rightarrow> Inl e))"

text \<open>
  \<open>__exit__\<close> (lines 19 to 24). The first loop visits the keys of \<open>signal_map\<close>, which its
  body does not change; the second visits the keys of \<open>replaced_signals\<close> as the first
  loop left it. An exception leaves the loop and the method.
\<close>

fun exit_uninstall :: "manager \<Rightarrow> int list \<Rightarrow> world \<Rightarrow> exn + world" where
  "exit_uninstall m [] w = Inr w"
| "exit_uninstall m (sig # sigs) w =
     (case priv_remove_signal_handler m sig w of
        Inl e \<Rightarrow> Inl e
      | Inr w' \<Rightarrow> exit_uninstall m sigs w')"

fun exit_restore :: "int list \<Rightarrow> world \<Rightarrow> exn + world" where
  "exit_restore [] w = Inr w"
| "exit_restore (sig # sigs) w =
     (case map_of (replaced_signals w) sig of
        None \<Rightarrow> Inl KeyError
      | Some d \<Rightarrow> exit_restore sigs (snd (signal_signal sig d w)))"

definition exit :: "manager \<Rightarrow> world \<Rightarrow> exn + world" where
  "exit m w =
     (case exit_uninstall m (map fst (signal_map w)) w of
        Inl e \<Rightarrow> Inl e
      | Inr w1 \<Rightarrow> exit_restore (map fst (replaced_signals w1)) w1)"

subsection \<open>States and managers used in examples\<close>

text \<open>
  The state of a process in which the class has just been created: both dicts empty,
  every signal at its default action, no event loop with a signal handler.
\<close>

definition world0 :: world where
  "world0 = \<lparr>signal_map = [], replaced_signals = [],
             os_handlers = (\<lambda>sig. SIG_DFL), loop_handlers = (\<lambda>l sig. None)\<rparr>"

definition direct0 :: manager where
  "direct0 = \<lparr>ident = 0, event_loop = None\<rparr>"

definition looped0 :: manager where
  "looped0 = \<lparr>ident = 0, event_loop = Some 7\<rparr>"

text \<open>
  The states in which direct-mode teardown finds an override for every registered
  signal: the keys of the registry are distinct (as the keys of a dict are) and each
  has an entry in the override table.
\<close>

definition direct_inv :: "world \<Rightarrow> bool" where
  "direct_inv w \<longleftrightarrow>
     distinct (map fst (signal_map w)) \<and>
     (\<forall>sig \<in> set (map fst (signal_map w)). map_of (replaced_signals w) sig \<noteq> None)"

text \<open>An iteration order of a set: every member once.\<close>

definition iterates :: "(handler set \<Rightarrow> handler list) \<Rightarrow> handler set \<Rightarrow> bool" where
  "iterates iter H \<longleftrightarrow> distinct (iter H) \<and> set (iter H) = H"

section \<open>Properties\<close>

subsection \<open>Dispatch\<close>

lemma call_all_not_bare_error: "call_all beh signum fr hs \<noteq> ([], Some e)"
  by (cases hs) (auto split: option.splits prod.splits)

lemma call_all_quiet:
  "\<forall>g \<in> set hs. beh g signum fr = None \<Longrightarrow>
   call_all beh signum fr hs = (map (\<lambda>g. (g, signum, fr)) hs, None)"
  by (induction hs) auto

lemma call_all_abort:
  "\<forall>g \<in> set pre. beh g signum fr = None \<Longrightarrow> beh h signum fr = Some e \<Longrightarrow>
   call_all beh signum fr (pre @ h # post) = (map (\<lambda>g. (g, signum, fr)) (pre @ [h]), Some e)"
  by (induction pre) auto

text \<open>
  Claim C10. For a signal without a registry entry, \<open>_handle_signal\<close> raises the
  \<open>KeyError\<close> of the lookup and calls no handler; for a signal with an entry the lookup
  succeeds and the result is that of the loop over the handler set. The outcome "no
  call made, \<open>KeyError\<close>" arises exactly when the signal is not a key of the registry.
\<close>

theorem handle_signal_unregistered_KeyError:
  "(map_of (signal_map w) sig = None \<longrightarrow>
      priv_handle_signal iter beh w sig fr = ([], Some KeyError)) \<and>
   (\<forall>H. map_of (signal_map w) sig = Some H \<longrightarrow>
      priv_handle_signal iter beh w sig fr = call_all beh sig fr (iter H)) \<and>
   ((priv_handle_signal iter beh w sig fr = ([], Some KeyError)) =
      (sig \<notin> fst ` set (signal_map w)))"
proof -
  have keys: "(map_of (signal_map w) sig = None) = (sig \<notin> fst ` set (signal_map w))"
    by (simp add: map_of_eq_None_iff)
  show ?thesis
    unfolding keys [symmetric]
    by (auto simp: priv_handle_signal_def call_all_not_bare_error split: option.splits)
qed

theorem handle_signal_unregistered_KeyError_witness:
  "priv_handle_signal (\<lambda>H. []) (\<lambda>h s f. None) world0 10 None = ([], Some KeyError) \<and>
   priv_handle_signal sorted_list_of_set (\<lambda>h s f. None)
      (world0\<lparr>signal_map := [(10, {1})]\<rparr>) 10 None = ([(1, 10, None)], None)"
  using handle_signal_unregistered_KeyError [of world0 10 "\<lambda>H. []" "\<lambda>h s f. None" None]
        handle_signal_unregistered_KeyError [of "world0\<lparr>signal_map := [(10, {1})]\<rparr>" 10 sorted_list_of_set "\<lambda>h s f. None" None]
  by (simp add: world0_def)

text \<open>
  Claim C7. When a handler raises during a delivery, \<open>_handle_signal\<close> ends with that
  exception: the calls made are those of the handlers iterated before it and of the
  raising handler itself, and no handler that comes later in the iteration is called.
\<close>

theorem handler_error_aborts_dispatch:
  assumes "map_of (signal_map w) sig = Some H"
      and "iter H = pre @ h # post"
      and "\<forall>g \<in> set pre. beh g sig fr = None"
      and "beh h sig fr = Some e"
  shows "priv_handle_signal iter beh w sig fr = (map (\<lambda>g. (g, sig, fr)) (pre @ [h]), Some e) \<and>
         (distinct (iter H) \<longrightarrow>
            (\<forall>g \<in> set post. (g, sig, fr) \<notin> set (fst (priv_handle_signal iter beh w sig fr))))"
proof -
  have run: "priv_handle_signal iter beh w sig fr = (map (\<lambda>g. (g, sig, fr)) (pre @ [h]), Some e)"
    using assms by (simp add: priv_handle_signal_def call_all_abort)
  moreover have "\<forall>g \<in> set post. (g, sig, fr) \<notin> set (map (\<lambda>g. (g, sig, fr)) (pre @ [h]))"
    if "distinct (iter H)"
    using that assms(2) by auto
  ultimately show ?thesis by simp
qed

theorem handler_error_aborts_dispatch_witness:
  "priv_handle_signal (\<lambda>H. [1, 2, 3]) (\<lambda>h s f. if h = 2 then Some (Raised 5) else None)
      (world0\<lparr>signal_map := [(10, {1, 2, 3})]\<rparr>) 10 None =
     ([(1, 10, None), (2, 10, None)], Some (Raised 5)) \<and>
   (3, 10, None) \<notin> set (fst (priv_handle_signal (\<lambda>H. [1, 2, 3])
      (\<lambda>h s f. if h = 2 then Some (Raised 5) else None)
      (world0\<lparr>signal_map := [(10, {1, 2, 3})]\<rparr>) 10 None))"
  using handler_error_aborts_dispatch
    [of "world0\<lparr>signal_map := [(10, {1, 2, 3})]\<rparr>" 10 "{1, 2, 3}" "\<lambda>H. [1, 2, 3]" "[1]" 2 "[3]"
        "\<lambda>h s f. if h = 2 then Some (Raised 5) else None" None "Raised 5"]
  by (simp add: world0_def)

subsection \<open>Removing a handler\<close>

text \<open>
  Claim C4. \<open>remove_signal_handler\<close> never raises. When the signal has no registry
  entry, or the handler is not in the signal's set, the state is returned as it was;
  otherwise the signal's set loses exactly that handler and every other entry of the
  registry stays as it was.
\<close>

theorem remove_signal_handler_never_raises:
  "(\<exists>w'. remove_signal_handler sig h w = Inr w') \<and>
   (map_of (signal_map w) sig = None \<or> (\<exists>H. map_of (signal_map w) sig = Some H \<and> h \<notin> H) \<longrightarrow>
      remove_signal_handler sig h w = Inr w) \<and>
   (\<forall>H. map_of (signal_map w) sig = Some H \<and> h \<in> H \<longrightarrow>
      remove_signal_handler sig h w =
        Inr (w\<lparr>signal_map := AList.update sig (H - {h}) (signal_map w)\<rparr>) \<and>
      map_of (AList.update sig (H - {h}) (signal_map w)) = (map_of (signal_map w))(sig \<mapsto> H - {h}))"
  by (auto simp: remove_signal_handler_def set_remove_def update_conv' split: option.splits)

theorem remove_signal_handler_never_raises_witness:
  "remove_signal_handler 10 1 world0 = Inr world0 \<and>
   remove_signal_handler 10 2 (world0\<lparr>signal_map := [(10, {1})]\<rparr>) =
     Inr (world0\<lparr>signal_map := [(10, {1})]\<rparr>) \<and>
   remove_signal_handler 10 1 (world0\<lparr>signal_map := [(10, {1, 2})]\<rparr>) =
     Inr (world0\<lparr>signal_map := [(10, {2})]\<rparr>)"
  using remove_signal_handler_never_raises [of 10 1 world0]
        remove_signal_handler_never_raises [of 10 2 "world0\<lparr>signal_map := [(10, {1})]\<rparr>"]
        remove_signal_handler_never_raises [of 10 1 "world0\<lparr>signal_map := [(10, {1, 2})]\<rparr>"]
  by (simp add: world0_def insert_Diff_if)

text \<open>
  Claim C8. \<open>remove_signal_handler\<close> leaves the keys of the registry, the override
  table, the signal table of the process and the signal handlers of every event loop
  as they were, also when the removal empties the signal's handler set.
\<close>

theorem remove_signal_handler_keeps_hook:
  "\<exists>w'. remove_signal_handler sig h w = Inr w' \<and>
        map fst (signal_map w') = map fst (signal_map w) \<and>
        replaced_signals w' = replaced_signals w \<and>
        os_handlers w' = os_handlers w \<and>
        loop_handlers w' = loop_handlers w"
  apply (auto simp: remove_signal_handler_def set_remove_def update_keys split: option.splits)
  by (metis domI dom_map_of_conv_image_fst)

theorem remove_signal_handler_keeps_hook_witness:
  "remove_signal_handler 10 1
     (world0\<lparr>signal_map := [(10, {1})], replaced_signals := [(10, SIG_IGN)],
             os_handlers := (os_handlers world0)(10 := Trampoline 0)\<rparr>) =
   Inr (world0\<lparr>signal_map := [(10, {})], replaced_signals := [(10, SIG_IGN)],
               os_handlers := (os_handlers world0)(10 := Trampoline 0)\<rparr>)"
  using remove_signal_handler_keeps_hook
    [of 10 1 "world0\<lparr>signal_map := [(10, {1})], replaced_signals := [(10, SIG_IGN)],
             os_handlers := (os_handlers world0)(10 := Trampoline 0)\<rparr>"]
  by (simp add: world0_def remove_signal_handler_def set_remove_def)

subsection \<open>Teardown\<close>

lemma priv_remove_direct:
  "event_loop m = None \<Longrightarrow>
   priv_remove_signal_handler m sig w =
     (case map_of (replaced_signals w) sig of
        None \<Rightarrow> Inl KeyError
      | Some d \<Rightarrow> Inr (w\<lparr>os_handlers := (os_handlers w)(sig := d),
                          replaced_signals := AList.delete sig (replaced_signals w)\<rparr>))"
  by (simp add: priv_remove_signal_handler_def signal_signal_def split: option.splits)

lemma priv_remove_loop:
  "event_loop m = Some l \<Longrightarrow>
   priv_remove_signal_handler m sig w =
     Inr (w\<lparr>loop_handlers := (loop_handlers w)(l := (loop_handlers w l)(sig := None))\<rparr>)"
  by (simp add: priv_remove_signal_handler_def)

lemma exit_uninstall_direct_props:
  "event_loop m = None \<Longrightarrow> exit_uninstall m sigs w = Inr w' \<Longrightarrow>
   signal_map w' = signal_map w \<and> loop_handlers w' = loop_handlers w \<and>
   distinct sigs \<and>
   (\<forall>s \<in> set sigs. map_of (replaced_signals w) s = Some (os_handlers w' s)) \<and>
   (\<forall>s. s \<notin> set sigs \<longrightarrow> os_handlers w' s = os_handlers w s) \<and>
   (\<forall>s. map_of (replaced_signals w') s =
          (if s \<in> set sigs then None else map_of (replaced_signals w) s))"
proof (induction sigs arbitrary: w)
  case Nil
  then show ?case by simp
next
  case (Cons a sigs)
  from Cons.prems obtain d where d: "map_of (replaced_signals w) a = Some d"
    and rest: "exit_uninstall m sigs
             (w\<lparr>os_handlers := (os_handlers w)(a := d),
                replaced_signals := AList.delete a (replaced_signals w)\<rparr>) = Inr w'"
    by (auto simp: priv_remove_direct split: option.splits)
  note ih = Cons.IH [OF Cons.prems(1) rest]
  have notin: "a \<notin> set sigs"
  proof
    assume "a \<in> set sigs"
    with ih have "map_of (AList.delete a (replaced_signals w)) a = Some (os_handlers w' a)"
      by simp
    then show False by (simp add: delete_conv')
  qed
  let ?w1 = "w\<lparr>os_handlers := (os_handlers w)(a := d),
                replaced_signals := AList.delete a (replaced_signals w)\<rparr>"
  have r1: "map_of (replaced_signals ?w1) s = (if s = a then None else map_of (replaced_signals w) s)"
    for s by (simp add: delete_conv')
  have o1: "os_handlers ?w1 s = (if s = a then d else os_handlers w s)" for s
    by simp
  have c1: "signal_map w' = signal_map w" "loop_handlers w' = loop_handlers w"
    using ih by simp_all
  have c2: "distinct (a # sigs)" using ih notin by simp
  have c3: "map_of (replaced_signals w) s = Some (os_handlers w' s)" if "s \<in> set (a # sigs)" for s
  proof (cases "s = a")
    case True
    with ih notin have "os_handlers w' a = os_handlers ?w1 a" by blast
    with True d show ?thesis by simp
  next
    case False
    with that have "s \<in> set sigs" by simp
    with ih have "map_of (replaced_signals ?w1) s = Some (os_handlers w' s)" by blast
    with False show ?thesis by (simp add: delete_conv')
  qed
  have c4: "os_handlers w' s = os_handlers w s" if "s \<notin> set (a # sigs)" for s
  proof -
    from that have "s \<notin> set sigs" "s \<noteq> a" by simp_all
    with ih have "os_handlers w' s = os_handlers ?w1 s" by blast
    with \<open>s \<noteq> a\<close> show ?thesis by simp
  qed
  have c5: "map_of (replaced_signals w') s =
          (if s \<in> set (a # sigs) then None else map_of (replaced_signals w) s)" for s
  proof -
    from ih have "map_of (replaced_signals w') s =
          (if s \<in> set sigs then None else map_of (replaced_signals ?w1) s)" by blast
    then show ?thesis by (simp add: delete_conv')
  qed
  from c1 c2 c3 c4 c5 show ?case by blast
qed

lemma exit_uninstall_direct_ok:
  "event_loop m = None \<Longrightarrow> distinct sigs \<Longrightarrow>
   \<forall>s \<in> set sigs. map_of (replaced_signals w) s \<noteq> None \<Longrightarrow>
   \<exists>w'. exit_uninstall m sigs w = Inr w'"
proof (induction sigs arbitrary: w)
  case Nil
  then show ?case by simp
next
  case (Cons a sigs)
  then obtain d where d: "map_of (replaced_signals w) a = Some d" by auto
  let ?w1 = "w\<lparr>os_handlers := (os_handlers w)(a := d),
                replaced_signals := AList.delete a (replaced_signals w)\<rparr>"
  have "\<forall>s \<in> set sigs. map_of (replaced_signals ?w1) s \<noteq> None"
    using Cons.prems by (auto simp: delete_conv')
  with Cons.IH [of ?w1] Cons.prems obtain w' where "exit_uninstall m sigs ?w1 = Inr w'"
    by auto
  with d Cons.prems(1) show ?case by (simp add: priv_remove_direct)
qed

lemma exit_uninstall_loop:
  "event_loop m = Some l \<Longrightarrow>
   \<exists>w'. exit_uninstall m sigs w = Inr w' \<and>
     signal_map w' = signal_map w \<and> replaced_signals w' = replaced_signals w \<and>
     os_handlers w' = os_handlers w \<and>
     (\<forall>s \<in> set sigs. loop_handlers w' l s = None) \<and>
     (\<forall>l' s. l' \<noteq> l \<or> s \<notin> set sigs \<longrightarrow> loop_handlers w' l' s = loop_handlers w l' s)"
proof (induction sigs arbitrary: w)
  case Nil
  then show ?case by simp
next
  case (Cons a sigs)
  let ?w1 = "w\<lparr>loop_handlers := (loop_handlers w)(l := (loop_handlers w l)(a := None))\<rparr>"
  from Cons.IH [OF Cons.prems, of ?w1] obtain w' where
    "exit_uninstall m sigs ?w1 = Inr w'"
    "signal_map w' = signal_map w" "replaced_signals w' = replaced_signals w"
    "os_handlers w' = os_handlers w"
    "\<forall>s \<in> set sigs. loop_handlers w' l s = None"
    "\<forall>l' s. l' \<noteq> l \<or> s \<notin> set sigs \<longrightarrow> loop_handlers w' l' s = loop_handlers ?w1 l' s"
    by auto
  with Cons.prems show ?case
    by (auto simp: priv_remove_loop)
qed

lemma exit_restore_props:
  "exit_restore sigs w = Inr w' \<Longrightarrow>
   signal_map w' = signal_map w \<and> replaced_signals w' = replaced_signals w \<and>
   loop_handlers w' = loop_handlers w \<and>
   (\<forall>s. s \<notin> set sigs \<longrightarrow> os_handlers w' s = os_handlers w s)"
proof (induction sigs arbitrary: w)
  case Nil
  then show ?case by simp
next
  case (Cons a sigs)
  then show ?case
    by (fastforce simp: signal_signal_def split: option.splits)
qed

lemma exit_restore_ok:
  "\<forall>s \<in> set sigs. map_of (replaced_signals w) s \<noteq> None \<Longrightarrow> \<exists>w'. exit_restore sigs w = Inr w'"
proof (induction sigs arbitrary: w)
  case Nil
  then show ?case by simp
next
  case (Cons a sigs)
  then show ?case
    by (auto simp: signal_signal_def split: option.splits)
qed

lemma keys_have_entries: "\<forall>s \<in> set (map fst al). map_of al s \<noteq> None"
  by (simp add: map_of_eq_None_iff)


lemma exit_direct:
  assumes m: "event_loop m = None" and inv: "direct_inv w"
  shows "\<exists>w'. exit m w = Inr w' \<and> signal_map w' = signal_map w \<and>
           loop_handlers w' = loop_handlers w \<and>
           (\<forall>s \<in> set (map fst (signal_map w)).
              map_of (replaced_signals w') s = None \<and>
              map_of (replaced_signals w) s = Some (os_handlers w' s)) \<and>
           (\<forall>s. s \<notin> set (map fst (signal_map w)) \<longrightarrow>
              map_of (replaced_signals w') s = map_of (replaced_signals w) s)"
proof -
  let ?ks = "map fst (signal_map w)"
  from inv have "distinct ?ks" "\<forall>s \<in> set ?ks. map_of (replaced_signals w) s \<noteq> None"
    by (simp_all add: direct_inv_def)
  with exit_uninstall_direct_ok [OF m] obtain w1 where w1: "exit_uninstall m ?ks w = Inr w1"
    by blast
  note p1 = exit_uninstall_direct_props [OF m w1]
  from exit_restore_ok [of "map fst (replaced_signals w1)" w1]
       keys_have_entries [of "replaced_signals w1"]
  obtain w' where w': "exit_restore (map fst (replaced_signals w1)) w1 = Inr w'"
    by blast
  note p2 = exit_restore_props [OF w']
  have ex: "exit m w = Inr w'"
    using w1 w' by (simp add: exit_def)
  have untouched: "os_handlers w' s = os_handlers w1 s" if "s \<in> set ?ks" for s
  proof -
    from p1 that have "map_of (replaced_signals w1) s = None" by simp
    then have "s \<notin> set (map fst (replaced_signals w1))"
      by (simp add: map_of_eq_None_iff)
    with p2 show ?thesis by blast
  qed
  have a: "signal_map w' = signal_map w" "loop_handlers w' = loop_handlers w"
    using p1 p2 by simp_all
  have b: "map_of (replaced_signals w') s = None \<and>
           map_of (replaced_signals w) s = Some (os_handlers w' s)" if "s \<in> set ?ks" for s
  proof -
    from p1 that have "map_of (replaced_signals w1) s = None"
      and "map_of (replaced_signals w) s = Some (os_handlers w1 s)" by auto
    with p2 untouched [OF that] show ?thesis by simp
  qed
  have c: "map_of (replaced_signals w') s = map_of (replaced_signals w) s"
    if "s \<notin> set ?ks" for s
    using p1 p2 that by auto
  from ex a b c show ?thesis by blast
qed

lemma exit_loop:
  assumes m: "event_loop m = Some l"
  shows "\<exists>w'. exit m w = Inr w' \<and> signal_map w' = signal_map w \<and>
           replaced_signals w' = replaced_signals w \<and>
           (\<forall>s \<in> set (map fst (signal_map w)). loop_handlers w' l s = None)"
proof -
  from exit_uninstall_loop [OF m, of "map fst (signal_map w)" w] obtain w1 where
    w1: "exit_uninstall m (map fst (signal_map w)) w = Inr w1"
        "signal_map w1 = signal_map w" "replaced_signals w1 = replaced_signals w"
        "\<forall>s \<in> set (map fst (signal_map w)). loop_handlers w1 l s = None"
    by blast
  from exit_restore_ok [of "map fst (replaced_signals w1)" w1]
       keys_have_entries [of "replaced_signals w1"]
  obtain w' where w': "exit_restore (map fst (replaced_signals w1)) w1 = Inr w'"
    by blast
  note p2 = exit_restore_props [OF w']
  have "exit m w = Inr w'" using w1(1) w' by (simp add: exit_def)
  with w1 p2 show ?thesis by simp
qed

lemma map_of_all_None: "(\<forall>k. map_of al k = None) \<Longrightarrow> al = []"
  by (cases al) (auto split: if_splits)

text \<open>
  Claim C1, as amended. \<open>__exit__\<close> completes in event-loop mode, and in direct mode
  whenever the registry keys are distinct and each has an override entry. It leaves
  the registry as it was and does not empty it. In direct mode every registered
  signal has afterwards no override entry and the disposition its override entry
  recorded, and the override table is empty when it had entries for registered signals
  only. In event-loop mode the loop has afterwards no handler for a registered signal
  and the override table is as it was.
\<close>

theorem exit_keeps_registry:
  assumes "event_loop m \<noteq> None \<or> direct_inv w"
  shows "\<exists>w'. exit m w = Inr w' \<and> signal_map w' = signal_map w \<and>
           (event_loop m = None \<longrightarrow>
              (\<forall>s \<in> set (map fst (signal_map w)).
                 map_of (replaced_signals w') s = None \<and>
                 map_of (replaced_signals w) s = Some (os_handlers w' s)) \<and>
              (set (map fst (replaced_signals w)) \<subseteq> set (map fst (signal_map w)) \<longrightarrow>
                 replaced_signals w' = [])) \<and>
           (\<forall>l. event_loop m = Some l \<longrightarrow>
              replaced_signals w' = replaced_signals w \<and>
              (\<forall>s \<in> set (map fst (signal_map w)). loop_handlers w' l s = None))"
proof (cases "event_loop m")
  case None
  with assms have inv: "direct_inv w" by simp
  from exit_direct [OF None inv] obtain w' where
    w': "exit m w = Inr w'" "signal_map w' = signal_map w"
    and reg: "\<forall>s \<in> set (map fst (signal_map w)).
              map_of (replaced_signals w') s = None \<and>
              map_of (replaced_signals w) s = Some (os_handlers w' s)"
    and other: "\<forall>s. s \<notin> set (map fst (signal_map w)) \<longrightarrow>
              map_of (replaced_signals w') s = map_of (replaced_signals w) s"
    by blast
  have "replaced_signals w' = []"
    if sub: "set (map fst (replaced_signals w)) \<subseteq> set (map fst (signal_map w))"
  proof (rule map_of_all_None, rule allI)
    fix k
    show "map_of (replaced_signals w') k = None"
    proof (cases "k \<in> set (map fst (signal_map w))")
      case True
      with reg show ?thesis by blast
    next
      case False
      with sub have "k \<notin> fst ` set (replaced_signals w)" by auto
      then have "map_of (replaced_signals w) k = None" by (simp add: map_of_eq_None_iff)
      with other False show ?thesis by simp
    qed
  qed
  with w' reg None show ?thesis by simp
next
  case (Some l)
  from exit_loop [OF Some, of w] Some show ?thesis by auto
qed

theorem exit_keeps_registry_witness:
  "direct_inv (world0\<lparr>signal_map := [(10, {1})], replaced_signals := [(10, SIG_IGN)],
                      os_handlers := (os_handlers world0)(10 := Trampoline 0)\<rparr>) \<and>
   exit direct0 (world0\<lparr>signal_map := [(10, {1})], replaced_signals := [(10, SIG_IGN)],
                      os_handlers := (os_handlers world0)(10 := Trampoline 0)\<rparr>) =
     Inr (world0\<lparr>signal_map := [(10, {1})], replaced_signals := [],
                 os_handlers := (os_handlers world0)(10 := SIG_IGN)\<rparr>) \<and>
   exit looped0 (world0\<lparr>signal_map := [(10, {1})],
                        loop_handlers := (loop_handlers world0)(7 := [10 \<mapsto> (0, 10)])\<rparr>) =
     Inr (world0\<lparr>signal_map := [(10, {1})]\<rparr>)"
  using exit_keeps_registry [of direct0
          "world0\<lparr>signal_map := [(10, {1})], replaced_signals := [(10, SIG_IGN)],
                  os_handlers := (os_handlers world0)(10 := Trampoline 0)\<rparr>"]
        exit_keeps_registry [of looped0
          "world0\<lparr>signal_map := [(10, {1})],
                  loop_handlers := (loop_handlers world0)(7 := [10 \<mapsto> (0, 10)])\<rparr>"]
  by (simp add: direct_inv_def world0_def direct0_def looped0_def exit_def
        priv_remove_signal_handler_def signal_signal_def fun_upd_idem_iff)

text \<open>
  Claim C1, as stated, fails: after \<open>add_signal_handler(10, h)\<close> on a direct-mode
  manager and \<open>__exit__\<close>, the registry still holds the entry for signal 10.
\<close>

theorem exit_registry_not_empty:
  "map_sum id signal_map (bind_exn (add_signal_handler direct0 10 1 world0) (exit direct0)) =
     Inr [(10, {1})]"
  by (simp add: bind_exn_def add_signal_handler_def priv_add_signal_handler_def
        signal_signal_def exit_def priv_remove_signal_handler_def world0_def direct0_def)

text \<open>
  Claim C9. In direct mode, when the registry is not empty (some signal was registered)
  and a first \<open>__exit__\<close> has completed, a second \<open>__exit__\<close> raises \<open>KeyError\<close>: the
  registry keys are still there and their override entries are gone.
\<close>

theorem second_exit_raises_KeyError:
  assumes m: "event_loop m = None" and ne: "signal_map w \<noteq> []" and first: "exit m w = Inr w1"
  shows "exit m w1 = Inl KeyError"
proof -
  from first obtain wa where
    wa: "exit_uninstall m (map fst (signal_map w)) w = Inr wa"
    and w1: "exit_restore (map fst (replaced_signals wa)) wa = Inr w1"
    by (auto simp: exit_def split: sum.splits)
  note p1 = exit_uninstall_direct_props [OF m wa]
  note p2 = exit_restore_props [OF w1]
  from ne obtain k v rest where ks: "signal_map w = (k, v) # rest"
    by (cases "signal_map w") auto
  from p1 p2 have sm: "signal_map w1 = signal_map w" by simp
  from p1 p2 ks have "map_of (replaced_signals w1) k = None" by simp
  then have "priv_remove_signal_handler m k w1 = Inl KeyError"
    using m by (simp add: priv_remove_direct)
  then show ?thesis
    by (simp add: exit_def sm ks)
qed

theorem second_exit_raises_KeyError_witness:
  "bind_exn (add_signal_handler direct0 10 1 world0) (exit direct0) =
     Inr (world0\<lparr>signal_map := [(10, {1})]\<rparr>) \<and>
   exit direct0 (world0\<lparr>signal_map := [(10, {1})]\<rparr>) = Inl KeyError"
proof -
  have first: "exit direct0 (world0\<lparr>signal_map := [(10, {1})], replaced_signals := [(10, SIG_DFL)],
                  os_handlers := (os_handlers world0)(10 := Trampoline 0)\<rparr>) =
               Inr (world0\<lparr>signal_map := [(10, {1})]\<rparr>)"
    by (simp add: exit_def priv_remove_signal_handler_def signal_signal_def world0_def
          direct0_def fun_upd_idem_iff)
  have add: "add_signal_handler direct0 10 1 world0 =
      Inr (world0\<lparr>signal_map := [(10, {1})], replaced_signals := [(10, SIG_DFL)],
                  os_handlers := (os_handlers world0)(10 := Trampoline 0)\<rparr>)"
    by (simp add: add_signal_handler_def priv_add_signal_handler_def signal_signal_def
          world0_def direct0_def)
  have "exit direct0 (world0\<lparr>signal_map := [(10, {1})]\<rparr>) = Inl KeyError"
    by (rule second_exit_raises_KeyError [OF _ _ first])
       (simp_all add: direct0_def world0_def)
  with first add show ?thesis by (simp add: bind_exn_def)
qed

subsection \<open>Registration and teardown\<close>

lemma priv_add_signal_map [simp]:
  "signal_map (priv_add_signal_handler m sig w) = signal_map w"
  by (simp add: priv_add_signal_handler_def signal_signal_def split: option.splits)

lemma add_signal_handler_old:
  "map_of (signal_map w) sig = Some H \<Longrightarrow>
   add_signal_handler m sig h w =
     Inr (w\<lparr>signal_map := AList.update sig (insert h H) (signal_map w)\<rparr>)"
  by (simp add: add_signal_handler_def)

lemma add_signal_handler_new:
  "map_of (signal_map w) sig = None \<Longrightarrow>
   add_signal_handler m sig h w =
     Inr ((priv_add_signal_handler m sig (w\<lparr>signal_map := AList.update sig {} (signal_map w)\<rparr>))
            \<lparr>signal_map := AList.update sig {h} (signal_map w)\<rparr>)"
  by (simp add: add_signal_handler_def Let_def update_conv')

lemma add_signal_handler_entry:
  "\<exists>w1. add_signal_handler m sig h w = Inr w1 \<and>
         map_of (signal_map w1) sig =
           Some (insert h (case map_of (signal_map w) sig of None \<Rightarrow> {} | Some H \<Rightarrow> H))"
  by (cases "map_of (signal_map w) sig")
     (simp_all add: add_signal_handler_new add_signal_handler_old update_conv')

lemma add_signal_handler_direct_new:
  "event_loop m = None \<Longrightarrow> map_of (signal_map w) sig = None \<Longrightarrow>
   add_signal_handler m sig h w =
     Inr (w\<lparr>signal_map := AList.update sig {h} (signal_map w),
            os_handlers := (os_handlers w)(sig := Trampoline (ident m)),
            replaced_signals := AList.update sig (os_handlers w sig) (replaced_signals w)\<rparr>)"
  by (simp add: add_signal_handler_new priv_add_signal_handler_def signal_signal_def)

text \<open>
  Claim C3. In direct mode, in a state where every registered signal has an override
  entry, the first registration of a signal installs the manager's dispatch routine
  as its disposition, and the teardown after it completes and leaves the signal with
  the disposition it had immediately before the registration.
\<close>

theorem add_then_exit_restores_disposition:
  assumes m: "event_loop m = None" and inv: "direct_inv w"
      and new: "map_of (signal_map w) sig = None"
  shows "\<exists>w1 w2. add_signal_handler m sig h w = Inr w1 \<and>
           os_handlers w1 sig = Trampoline (ident m) \<and>
           exit m w1 = Inr w2 \<and>
           os_handlers w2 sig = os_handlers w sig"
proof -
  let ?w1 = "w\<lparr>signal_map := AList.update sig {h} (signal_map w),
            os_handlers := (os_handlers w)(sig := Trampoline (ident m)),
            replaced_signals := AList.update sig (os_handlers w sig) (replaced_signals w)\<rparr>"
  have add: "add_signal_handler m sig h w = Inr ?w1"
    by (rule add_signal_handler_direct_new [OF m new])
  have keys: "set (map fst (signal_map ?w1)) = insert sig (set (map fst (signal_map w)))"
    by (simp add: dom_update)
  have "distinct (map fst (signal_map ?w1))"
    using inv by (simp add: direct_inv_def distinct_update)
  moreover have "\<forall>s \<in> set (map fst (signal_map ?w1)). map_of (replaced_signals ?w1) s \<noteq> None"
    unfolding keys using inv by (auto simp: direct_inv_def update_conv')
  ultimately have inv1: "direct_inv ?w1"
    unfolding direct_inv_def by blast
  from exit_direct [OF m inv1] obtain w2 where
    w2: "exit m ?w1 = Inr w2"
    and rec: "\<forall>s \<in> set (map fst (signal_map ?w1)).
               map_of (replaced_signals ?w1) s = Some (os_handlers w2 s)"
    by blast
  from keys have "sig \<in> set (map fst (signal_map ?w1))" by blast
  with rec have "map_of (replaced_signals ?w1) sig = Some (os_handlers w2 sig)" by blast
  then have "os_handlers w2 sig = os_handlers w sig"
    by (simp add: update_conv')
  with add w2 show ?thesis by simp
qed

theorem add_then_exit_restores_disposition_witness:
  "add_signal_handler direct0 10 1 (world0\<lparr>os_handlers := (os_handlers world0)(10 := SIG_IGN)\<rparr>) =
     Inr (world0\<lparr>signal_map := [(10, {1})], replaced_signals := [(10, SIG_IGN)],
                 os_handlers := (os_handlers world0)(10 := Trampoline 0)\<rparr>) \<and>
   exit direct0 (world0\<lparr>signal_map := [(10, {1})], replaced_signals := [(10, SIG_IGN)],
                 os_handlers := (os_handlers world0)(10 := Trampoline 0)\<rparr>) =
     Inr (world0\<lparr>signal_map := [(10, {1})],
                 os_handlers := (os_handlers world0)(10 := SIG_IGN)\<rparr>)"
  using add_then_exit_restores_disposition
          [of direct0 "world0\<lparr>os_handlers := (os_handlers world0)(10 := SIG_IGN)\<rparr>" 10 1]
  by (simp add: direct_inv_def world0_def direct0_def add_signal_handler_def
        priv_add_signal_handler_def exit_def priv_remove_signal_handler_def signal_signal_def)

subsection \<open>Construction\<close>

text \<open>
  Claim C2 does not hold of the code. \<open>__init__\<close> returns the state it was given, so a
  new manager finds in \<open>signal_map\<close> and \<open>replaced_signals\<close> whatever earlier managers
  left there: after \<open>add_signal_handler(10, h)\<close> on one direct-mode manager, a second
  manager is constructed with registry \<open>{10: {h}}\<close> and override table
  \<open>{10: SIG_DFL}\<close>.
\<close>

theorem init_sees_earlier_registrations:
  "(\<exists>m. init i arg running w = Inr (m, w)) \<and>
   bind_exn (bind_exn (add_signal_handler direct0 10 1 world0) (init 1 None None))
     (\<lambda>(m, w). Inr (m, signal_map w, replaced_signals w)) =
     Inr (\<lparr>ident = 1, event_loop = None\<rparr>, [(10, {1})], [(10, SIG_DFL)])"
  by (simp add: init_def get_running_loop_def bind_exn_def add_signal_handler_def
        priv_add_signal_handler_def signal_signal_def world0_def direct0_def
        split: option.splits sum.splits exn.splits)

subsection \<open>Registering a handler twice\<close>

lemma call_all_fst_quiet:
  "beh a signum fr = None \<Longrightarrow>
   fst (call_all beh signum fr (a # hs)) = (a, signum, fr) # fst (call_all beh signum fr hs)"
  by (simp split: prod.splits)

lemma call_all_fst_raise:
  "beh a signum fr = Some e \<Longrightarrow> fst (call_all beh signum fr (a # hs)) = [(a, signum, fr)]"
  by simp

lemma call_all_calls_of_absent:
  "h \<notin> set hs \<Longrightarrow> filter (\<lambda>c. fst c = h) (fst (call_all beh signum fr hs)) = []"
  by (induction hs) (auto split: option.splits prod.splits)

lemma call_all_at_most_once:
  "distinct hs \<Longrightarrow> length (filter (\<lambda>c. fst c = h) (fst (call_all beh signum fr hs))) \<le> 1"
proof (induction hs)
  case Nil
  then show ?case by simp
next
  case (Cons a hs)
  show ?case
  proof (cases "beh a signum fr")
    case (Some e)
    then show ?thesis by simp
  next
    case None
    show ?thesis
    proof (cases "a = h")
      case True
      with Cons.prems have "h \<notin> set hs" by simp
      from call_all_calls_of_absent [OF this, of beh signum fr] True None show ?thesis
        by (simp add: call_all_fst_quiet del: call_all.simps)
    next
      case False
      with Cons None show ?thesis
        by (simp add: call_all_fst_quiet del: call_all.simps)
    qed
  qed
qed

lemma call_all_exactly_once:
  "distinct hs \<Longrightarrow> h \<in> set hs \<Longrightarrow> \<forall>g \<in> set hs. g \<noteq> h \<longrightarrow> beh g signum fr = None \<Longrightarrow>
   filter (\<lambda>c. fst c = h) (fst (call_all beh signum fr hs)) = [(h, signum, fr)]"
proof (induction hs)
  case Nil
  then show ?case by simp
next
  case (Cons a hs)
  show ?case
  proof (cases "a = h")
    case True
    with Cons.prems have "h \<notin> set hs" by simp
    from call_all_calls_of_absent [OF this, of beh signum fr] True show ?thesis
      by (cases "beh a signum fr")
         (simp_all add: call_all_fst_quiet call_all_fst_raise del: call_all.simps)
  next
    case False
    with Cons.prems have q: "beh a signum fr = None" by simp
    from False Cons q show ?thesis
      by (simp add: call_all_fst_quiet del: call_all.simps)
  qed
qed

text \<open>
  Claim C5. \<open>add_signal_handler(sig, h)\<close> never raises, and a second call with the same
  arguments returns the state the first call produced. In that state \<open>h\<close> is in the
  handler set of \<open>sig\<close>, and in a delivery of \<open>sig\<close> the handler \<open>h\<close> is called at most
  once for any iteration order of the set, and exactly once, with the signal and the
  frame, when no other handler of the set raises.
\<close>

theorem add_signal_handler_idempotent:
  "\<exists>w1 H. add_signal_handler m sig h w = Inr w1 \<and>
          add_signal_handler m sig h w1 = Inr w1 \<and>
          map_of (signal_map w1) sig = Some H \<and> h \<in> H \<and>
          (\<forall>iter beh fr. iterates iter H \<longrightarrow>
             length (filter (\<lambda>c. fst c = h) (fst (priv_handle_signal iter beh w1 sig fr))) \<le> 1 \<and>
             ((\<forall>g \<in> H. g \<noteq> h \<longrightarrow> beh g sig fr = None) \<longrightarrow>
                filter (\<lambda>c. fst c = h) (fst (priv_handle_signal iter beh w1 sig fr)) =
                  [(h, sig, fr)]))"
proof -
  from add_signal_handler_entry [of m sig h w] obtain w1 H where
    w1: "add_signal_handler m sig h w = Inr w1"
    and H: "map_of (signal_map w1) sig = Some H" and mem: "h \<in> H"
    by auto
  from mem have "insert h H = H" by auto
  with H have again: "add_signal_handler m sig h w1 = Inr w1"
    by (simp add: add_signal_handler_old update_triv)
  have disp: "length (filter (\<lambda>c. fst c = h) (fst (priv_handle_signal iter beh w1 sig fr))) \<le> 1 \<and>
             ((\<forall>g \<in> H. g \<noteq> h \<longrightarrow> beh g sig fr = None) \<longrightarrow>
                filter (\<lambda>c. fst c = h) (fst (priv_handle_signal iter beh w1 sig fr)) =
                  [(h, sig, fr)])"
    if it: "iterates iter H" for iter beh fr
  proof -
    from it have d: "distinct (iter H)" and s: "set (iter H) = H"
      by (simp_all add: iterates_def)
    have run: "priv_handle_signal iter beh w1 sig fr = call_all beh sig fr (iter H)"
      using H by (simp add: priv_handle_signal_def)
    from mem s have "h \<in> set (iter H)" by simp
    from call_all_at_most_once [OF d, of h beh sig fr]
         call_all_exactly_once [OF d this, of beh sig fr] s
    show ?thesis unfolding run by blast
  qed
  from w1 again H mem disp show ?thesis by blast
qed


theorem add_signal_handler_idempotent_witness:
  "add_signal_handler direct0 10 1 world0 =
     Inr (world0\<lparr>signal_map := [(10, {1})], replaced_signals := [(10, SIG_DFL)],
                 os_handlers := (os_handlers world0)(10 := Trampoline 0)\<rparr>) \<and>
   add_signal_handler direct0 10 1
       (world0\<lparr>signal_map := [(10, {1})], replaced_signals := [(10, SIG_DFL)],
               os_handlers := (os_handlers world0)(10 := Trampoline 0)\<rparr>) =
     Inr (world0\<lparr>signal_map := [(10, {1})], replaced_signals := [(10, SIG_DFL)],
                 os_handlers := (os_handlers world0)(10 := Trampoline 0)\<rparr>) \<and>
   iterates (\<lambda>H. [1]) {1} \<and>
   priv_handle_signal (\<lambda>H. [1]) (\<lambda>h s f. None)
       (world0\<lparr>signal_map := [(10, {1})], replaced_signals := [(10, SIG_DFL)],
               os_handlers := (os_handlers world0)(10 := Trampoline 0)\<rparr>) 10 None =
     ([(1, 10, None)], None)"
  using add_signal_handler_idempotent [of direct0 10 1 world0]
  by (simp add: add_signal_handler_def priv_add_signal_handler_def signal_signal_def
        priv_handle_signal_def iterates_def world0_def direct0_def)

subsection \<open>Fan-out\<close>

lemma distinct_singleton_list:
  assumes "distinct xs" and "set xs = {x}"
  shows "xs = [x]"
proof (cases xs)
  case Nil
  with assms show ?thesis by simp
next
  case (Cons a ys)
  with assms have "a = x" and "x \<notin> set ys" and "set ys \<subseteq> {x}" by auto
  have "ys = []"
  proof (cases ys)
    case Nil
    then show ?thesis .
  next
    case (Cons b zs)
    with \<open>set ys \<subseteq> {x}\<close> have "b = x" by simp
    with Cons \<open>x \<notin> set ys\<close> show ?thesis by simp
  qed
  with Cons \<open>a = x\<close> show ?thesis by simp
qed

lemma handle_signal_quiet:
  assumes "map_of (signal_map w) sig = Some H" and "iterates iter H"
      and "\<forall>g \<in> H. beh g sig fr = None"
  shows "priv_handle_signal iter beh w sig fr = (map (\<lambda>g. (g, sig, fr)) (iter H), None)"
    and "distinct (map (\<lambda>g. (g, sig, fr)) (iter H))"
    and "set (map (\<lambda>g. (g, sig, fr)) (iter H)) = (\<lambda>g. (g, sig, fr)) ` H"
proof -
  from assms(2) have d: "distinct (iter H)" and s: "set (iter H) = H"
    by (simp_all add: iterates_def)
  from assms(3) s have "\<forall>g \<in> set (iter H). beh g sig fr = None" by simp
  then show "priv_handle_signal iter beh w sig fr = (map (\<lambda>g. (g, sig, fr)) (iter H), None)"
    using assms(1) by (simp add: priv_handle_signal_def call_all_quiet)
  show "distinct (map (\<lambda>g. (g, sig, fr)) (iter H))"
    using d by (simp add: distinct_map inj_on_def)
  show "set (map (\<lambda>g. (g, sig, fr)) (iter H)) = (\<lambda>g. (g, sig, fr)) ` H"
    using s by simp
qed

text \<open>
  Claim C6. When no handler of the set raises, one call of \<open>_handle_signal\<close> for a
  registered signal makes one call per member of the signal's handler set and no
  other call, each with the signal and the frame, in the order of the set's iterator.
  After registering \<open>h1\<close> and \<open>h2\<close> for a signal that had no entry, the calls are those of
  \<open>h1\<close> and \<open>h2\<close>, once each; after removing \<open>h1\<close> (different from \<open>h2\<close>) as well, the
  only call is that of \<open>h2\<close>.
\<close>

theorem handle_signal_calls_each_handler_once:
  "(map_of (signal_map w) sig = Some H \<and> iterates iter H \<and> (\<forall>g \<in> H. beh g sig fr = None) \<longrightarrow>
      (\<exists>log. priv_handle_signal iter beh w sig fr = (log, None) \<and>
             distinct log \<and> set log = (\<lambda>g. (g, sig, fr)) ` H)) \<and>
   (map_of (signal_map w0) sig = None \<and> iterates iter {h1, h2} \<and> iterates iter {h2} \<and>
    beh h1 sig fr = None \<and> beh h2 sig fr = None \<longrightarrow>
      (\<exists>w1 w2 w3. add_signal_handler m sig h1 w0 = Inr w1 \<and>
         add_signal_handler m sig h2 w1 = Inr w2 \<and>
         remove_signal_handler sig h1 w2 = Inr w3 \<and>
         (\<exists>log. priv_handle_signal iter beh w2 sig fr = (log, None) \<and>
                distinct log \<and> set log = {(h1, sig, fr), (h2, sig, fr)}) \<and>
         (h1 \<noteq> h2 \<longrightarrow> priv_handle_signal iter beh w3 sig fr = ([(h2, sig, fr)], None))))"
proof (rule conjI; rule impI; (elim conjE)?)
  assume "map_of (signal_map w) sig = Some H" "iterates iter H" "\<forall>g \<in> H. beh g sig fr = None"
  with handle_signal_quiet [of w sig H iter beh fr]
  show "\<exists>log. priv_handle_signal iter beh w sig fr = (log, None) \<and>
             distinct log \<and> set log = (\<lambda>g. (g, sig, fr)) ` H"
    by blast
next
  assume new: "map_of (signal_map w0) sig = None"
    and it2: "iterates iter {h1, h2}" and it1: "iterates iter {h2}"
    and q1: "beh h1 sig fr = None" and q2: "beh h2 sig fr = None"
  from add_signal_handler_entry [of m sig h1 w0] new obtain w1 where
    w1: "add_signal_handler m sig h1 w0 = Inr w1" and e1: "map_of (signal_map w1) sig = Some {h1}"
    by auto
  from add_signal_handler_entry [of m sig h2 w1] e1 obtain w2 where
    w2: "add_signal_handler m sig h2 w1 = Inr w2"
    and e2: "map_of (signal_map w2) sig = Some {h1, h2}"
    by (auto simp: insert_commute)
  let ?w3 = "w2\<lparr>signal_map := AList.update sig ({h1, h2} - {h1}) (signal_map w2)\<rparr>"
  have w3: "remove_signal_handler sig h1 w2 = Inr ?w3"
    using e2 by (simp add: remove_signal_handler_def set_remove_def)
  from q1 q2 have quiet2: "\<forall>g \<in> {h1, h2}. beh g sig fr = None" by simp
  from handle_signal_quiet [of w2 sig "{h1, h2}" iter beh fr] e2 it2 quiet2
  have r2: "\<exists>log. priv_handle_signal iter beh w2 sig fr = (log, None) \<and>
                distinct log \<and> set log = {(h1, sig, fr), (h2, sig, fr)}"
    by auto
  have r3: "priv_handle_signal iter beh ?w3 sig fr = ([(h2, sig, fr)], None)" if ne: "h1 \<noteq> h2"
  proof -
    from ne have "{h1, h2} - {h1} = {h2}" by auto
    then have e3: "map_of (signal_map ?w3) sig = Some {h2}"
      by (simp add: update_conv')
    from it1 have "distinct (iter {h2})" "set (iter {h2}) = {h2}"
      by (simp_all add: iterates_def)
    then have "iter {h2} = [h2]"
      by (rule distinct_singleton_list)
    with handle_signal_quiet(1) [of ?w3 sig "{h2}" iter beh fr] e3 it1 q2 show ?thesis by simp
  qed
  from w1 w2 w3 r2 r3
  show "\<exists>w1 w2 w3. add_signal_handler m sig h1 w0 = Inr w1 \<and>
         add_signal_handler m sig h2 w1 = Inr w2 \<and>
         remove_signal_handler sig h1 w2 = Inr w3 \<and>
         (\<exists>log. priv_handle_signal iter beh w2 sig fr = (log, None) \<and>
                distinct log \<and> set log = {(h1, sig, fr), (h2, sig, fr)}) \<and>
         (h1 \<noteq> h2 \<longrightarrow> priv_handle_signal iter beh w3 sig fr = ([(h2, sig, fr)], None))"
    by blast
qed


theorem handle_signal_calls_each_handler_once_witness:
  "iterates (\<lambda>H. filter (\<lambda>g. g \<in> H) [2, 1]) {1, 2} \<and>
   iterates (\<lambda>H. filter (\<lambda>g. g \<in> H) [2, 1]) {2} \<and>
   bind_exn (bind_exn (add_signal_handler direct0 10 1 world0) (add_signal_handler direct0 10 2))
     (\<lambda>w. Inr (priv_handle_signal (\<lambda>H. filter (\<lambda>g. g \<in> H) [2, 1]) (\<lambda>h s f. None) w 10 (Some 4))) =
     Inr ([(2, 10, Some 4), (1, 10, Some 4)], None) \<and>
   bind_exn (bind_exn (bind_exn (add_signal_handler direct0 10 1 world0)
       (add_signal_handler direct0 10 2)) (remove_signal_handler 10 1))
     (\<lambda>w. Inr (priv_handle_signal (\<lambda>H. filter (\<lambda>g. g \<in> H) [2, 1]) (\<lambda>h s f. None) w 10 (Some 4))) =
     Inr ([(2, 10, Some 4)], None)"
  using handle_signal_calls_each_handler_once
    [of "world0\<lparr>signal_map := [(10, {1, 2})]\<rparr>" 10 "{1, 2}"
        "\<lambda>H. filter (\<lambda>g. g \<in> H) [2, 1]" "\<lambda>h s f. None" "Some 4" world0 1 2 direct0]
  by (simp add: iterates_def bind_exn_def add_signal_handler_def priv_add_signal_handler_def
        signal_signal_def remove_signal_handler_def set_remove_def priv_handle_signal_def
        world0_def direct0_def insert_Diff_if insert_commute)

end
